theory Spec2Isabelle
  imports Main "HOL-Library.Multiset"
begin

section \<open>Data model of the file synchronizer\<close>

text \<open>
  The development follows \<^verbatim>\<open>pulp_file/app/tasks/synchronizing.py\<close>.
  Python sets are HOL sets, generators are lists (the order of production is kept, the
  laziness is not), exceptions are values of the type \<open>error\<close> on the left of a sum.
\<close>

datatype error =
    DoesNotExist
  | ValueError
  | TypeError
  | AttributeError
  | TransportError
  | Unmodelled

text \<open>The natural key: \<^verbatim>\<open>Key = namedtuple('Key', ('path', 'digest'))\<close>.\<close>

datatype Key = Key (path: string) (digest: string)

text \<open>The set of Key to be added and removed:
  \<^verbatim>\<open>Delta = namedtuple('Delta', ('additions', 'removals'))\<close>.\<close>

datatype Delta = Delta (additions: "Key set") (removals: "Key set")

text \<open>
  Modelled from the spec: the class \<^verbatim>\<open>Manifest\<close> of \<^verbatim>\<open>pulp_file.manifest\<close> is
  not among the sources. A manifest entry carries a path, a digest and a size; a manifest
  is the sequence of entries that \<^verbatim>\<open>manifest.read()\<close> yields, the same at every
  iteration.
\<close>

datatype ManifestEntry = ManifestEntry (e_path: string) (e_digest: string) (e_size: nat)

type_synonym Manifest = "ManifestEntry list"

definition read :: "Manifest \<Rightarrow> ManifestEntry list" where
  "read manifest = manifest"

text \<open>
  Modelled from the spec: \<^verbatim>\<open>FileContent\<close> of \<^verbatim>\<open>pulp_file.app.models\<close> is not among
  the sources. A content record has a path and a digest; a stored record has a primary key,
  a record built in memory has none yet.
\<close>

datatype FileContent = FileContent (pk: "nat option") (fc_path: string) (fc_digest: string)

text \<open>
  Modelled from the spec: \<^verbatim>\<open>RepositoryVersion\<close> of \<^verbatim>\<open>pulpcore.plugin.models\<close> is not
  among the sources. A version belongs to a repository (named by its primary key), has a
  number and a content, and is provisional until it is complete.
\<close>

datatype RepositoryVersion =
  RepositoryVersion (repository: string) (number: nat) (content: "FileContent list")
                    (complete: bool)

section \<open>The delta\<close>

text \<open>\<^verbatim>\<open>fetch_content(base_version)\<close>: the set of Key contained in the base version,
  empty when there is no base version.\<close>

definition fetch_content :: "RepositoryVersion option \<Rightarrow> Key set" where
  "fetch_content base_version =
     (case base_version of
        None \<Rightarrow> {}
      | Some v \<Rightarrow> set (map (\<lambda>file. Key (fc_path file) (fc_digest file)) (content v)))"

text \<open>\<^verbatim>\<open>find_delta(manifest, content, mirror=True)\<close>.\<close>

definition find_delta :: "Manifest \<Rightarrow> Key set \<Rightarrow> bool \<Rightarrow> Delta" where
  "find_delta manifest content_keys mirror =
     (let remote_content = set (map (\<lambda>e. Key (e_path e) (e_digest e)) (read manifest));
          additions = remote_content - content_keys;
          removals = (if mirror then content_keys - remote_content else {})
      in Delta additions removals)"

text \<open>The remote natural keys that a manifest lists.\<close>

definition remote_keys :: "Manifest \<Rightarrow> Key set" where
  "remote_keys manifest = (\<lambda>e. Key (e_path e) (e_digest e)) ` set (read manifest)"

section \<open>Library functions used by the planners\<close>

text \<open>
  \<^verbatim>\<open>os.path.dirname\<close> and \<^verbatim>\<open>os.path.join\<close> (posixpath) and
  \<^verbatim>\<open>urlparse\<close>, \<^verbatim>\<open>urlunparse\<close> (urllib.parse) belong to the Python library; they
  are written out here after CPython 3.11 so that the fetch URLs can be computed.
\<close>

definition sep :: char where
  "sep = CHR ''/''"

text \<open>\<^verbatim>\<open>s.rstrip(c)\<close> for a single character.\<close>

definition rstrip :: "char \<Rightarrow> string \<Rightarrow> string" where
  "rstrip c s = rev (dropWhile (\<lambda>x. x = c) (rev s))"

text \<open>\<^verbatim>\<open>p[:p.rfind(c) + 1]\<close>: the prefix up to and including the last \<open>c\<close>, empty when
  there is none.\<close>

definition upto_last :: "char \<Rightarrow> string \<Rightarrow> string" where
  "upto_last c p = rev (dropWhile (\<lambda>x. x \<noteq> c) (rev p))"

text \<open>
  \<^verbatim>\<open>
  def dirname(p):
      i = p.rfind(sep) + 1
      head = p[:i]
      if head and head != sep*len(head):
          head = head.rstrip(sep)
      return head
  \<close>
\<close>

definition dirname :: "string \<Rightarrow> string" where
  "dirname p =
     (let head = upto_last sep p
      in if head \<noteq> [] \<and> head \<noteq> replicate (length head) sep then rstrip sep head else head)"

text \<open>
  \<^verbatim>\<open>os.path.join(a, b)\<close> with one component \<open>b\<close>:
  \<^verbatim>\<open>
      if b.startswith(sep):               path = b
      elif not path or path.endswith(sep): path += b
      else:                                path += sep + b
  \<close>
\<close>

definition join :: "string \<Rightarrow> string \<Rightarrow> string" where
  "join a b =
     (if take 1 b = [sep] then b
      else if a = [] \<or> last a = sep then a @ b
      else a @ [sep] @ b)"

text \<open>The six components of \<^verbatim>\<open>urllib.parse.ParseResult\<close>.\<close>

datatype ParseResult =
  ParseResult (url_scheme: string) (url_netloc: string) (url_path: string)
              (url_params: string) (url_query: string) (url_fragment: string)

definition uses_netloc :: "string list" where
  "uses_netloc = ['''', ''ftp'', ''http'', ''gopher'', ''nntp'', ''telnet'',
                  ''imap'', ''wais'', ''file'', ''mms'', ''https'', ''shttp'',
                  ''snews'', ''prospero'', ''rtsp'', ''rtsps'', ''rtspu'', ''rsync'',
                  ''svn'', ''svn+ssh'', ''sftp'', ''nfs'', ''git'', ''git+ssh'',
                  ''ws'', ''wss'']"

definition uses_params :: "string list" where
  "uses_params = ['''', ''ftp'', ''hdl'', ''prospero'', ''http'', ''imap'',
                  ''https'', ''shttp'', ''rtsp'', ''rtsps'', ''rtspu'', ''sip'',
                  ''sips'', ''mms'', ''sftp'', ''tel'']"

definition ascii_lowercase :: string where
  "ascii_lowercase = ''abcdefghijklmnopqrstuvwxyz''"

definition ascii_uppercase :: string where
  "ascii_uppercase = ''ABCDEFGHIJKLMNOPQRSTUVWXYZ''"

definition scheme_chars :: string where
  "scheme_chars = ascii_lowercase @ ascii_uppercase @ ''0123456789'' @ ''+-.''"

text \<open>\<^verbatim>\<open>str.lower\<close> on the characters a scheme can hold.\<close>

definition lower :: "string \<Rightarrow> string" where
  "lower s =
     map (\<lambda>c. case map_of (zip ascii_uppercase ascii_lowercase) c of
                 None \<Rightarrow> c | Some l \<Rightarrow> l) s"

text \<open>\<^verbatim>\<open>a, b = s.split(c, 1)\<close> for a string \<open>s\<close> that holds \<open>c\<close>; when it does not,
  the second part is empty.\<close>

definition split1 :: "char \<Rightarrow> string \<Rightarrow> string \<times> string" where
  "split1 c s = (takeWhile (\<lambda>x. x \<noteq> c) s, drop 1 (dropWhile (\<lambda>x. x \<noteq> c) s))"

text \<open>
  \<^verbatim>\<open>_splitnetloc(url, 2)\<close>: the network location ends at the first of \<open>/ ? #\<close> after
  the leading two slashes.
\<close>

definition splitnetloc :: "string \<Rightarrow> string \<times> string" where
  "splitnetloc url =
     (let rest = drop 2 url; delim = (\<lambda>c. c \<in> set ''/?#'')
      in (takeWhile (\<lambda>c. \<not> delim c) rest, dropWhile (\<lambda>c. \<not> delim c) rest))"

text \<open>
  \<^verbatim>\<open>
  i = url.find(':')
  if i > 0 and url[0].isascii() and url[0].isalpha():
      for c in url[:i]:
          if c not in scheme_chars: break
      else:
          scheme, url = url[:i].lower(), url[i+1:]
  \<close>
\<close>

definition split_scheme :: "string \<Rightarrow> string \<times> string" where
  "split_scheme url =
     (let pre = takeWhile (\<lambda>c. c \<noteq> CHR '':'') url
      in if CHR '':'' \<in> set url \<and> pre \<noteq> []
            \<and> hd pre \<in> set (ascii_lowercase @ ascii_uppercase)
            \<and> list_all (\<lambda>c. c \<in> set scheme_chars) pre
         then (lower pre, drop (length pre + 1) url)
         else ([], url))"

text \<open>
  \<^verbatim>\<open>s.split(c)\<close>: the pieces of \<open>s\<close> between the occurrences of \<open>c\<close>, empty pieces
  included.
\<close>

fun split_on :: "char \<Rightarrow> string \<Rightarrow> string list" where
  "split_on c [] = [[]]"
| "split_on c (x # xs) =
     (if x = c then [] # split_on c xs
      else (case split_on c xs of
              [] \<Rightarrow> [[x]]
            | p # ps \<Rightarrow> (x # p) # ps))"

definition hexdigits :: string where
  "hexdigits = ''0123456789ABCDEFabcdef''"

definition decimal_digits :: string where
  "decimal_digits = ''0123456789''"

definition decimal :: "string \<Rightarrow> nat" where
  "decimal s = foldl (\<lambda>n c. 10 * n + (of_char c - 48)) 0 s"

text \<open>
  \<^verbatim>\<open>ipaddress\<close>, as far as it decides whether a string is an address. An octet is one
  to three decimal digits without a leading zero, at most 255; an IPv4 address has four
  octets.
\<close>

definition parse_octet_ok :: "string \<Rightarrow> bool" where
  "parse_octet_ok s =
     (s \<noteq> [] \<and> list_all (\<lambda>c. c \<in> set decimal_digits) s \<and> length s \<le> 3
      \<and> (if s = ''0'' then True else hd s \<noteq> CHR ''0'') \<and> decimal s \<le> 255)"

definition IPv4Address_ok :: "string \<Rightarrow> bool" where
  "IPv4Address_ok s =
     (CHR ''/'' \<notin> set s \<and> s \<noteq> []
      \<and> length (split_on (CHR ''.'') s) = 4
      \<and> list_all parse_octet_ok (split_on (CHR ''.'') s))"

text \<open>A hextet is one to four hexadecimal digits.\<close>

definition parse_hextet_ok :: "string \<Rightarrow> bool" where
  "parse_hextet_ok s = (list_all (\<lambda>c. c \<in> set hexdigits) s \<and> length s \<le> 4 \<and> s \<noteq> [])"

text \<open>
  The parts of an IPv6 address between its colons (\<^verbatim>\<open>_ip_int_from_string\<close>): at most
  nine; an empty part strictly inside marks the one \<^verbatim>\<open>::\<close>, next to which an empty
  first or last part is allowed; without \<^verbatim>\<open>::\<close> there are exactly eight parts; every
  part that is read is a hextet.
\<close>

definition ip6_parts_ok :: "string list \<Rightarrow> bool" where
  "ip6_parts_ok parts =
     (length parts \<le> 9 \<and>
      (case filter (\<lambda>i. parts ! i = []) [1..<length parts - 1] of
         [] \<Rightarrow>
           length parts = 8 \<and> hd parts \<noteq> [] \<and> last parts \<noteq> []
           \<and> list_all parse_hextet_ok parts
       | [skip_index] \<Rightarrow>
           (let parts_hi = (if hd parts = [] then skip_index - 1 else skip_index);
                parts_lo = (if last parts = [] then length parts - skip_index - 1 - 1
                            else length parts - skip_index - 1)
            in (if hd parts = [] then parts_hi = 0 else True)
               \<and> (if last parts = [] then parts_lo = 0 else True)
               \<and> parts_hi + parts_lo < 8
               \<and> list_all parse_hextet_ok (take parts_hi parts)
               \<and> list_all parse_hextet_ok (drop (length parts - parts_lo) parts))
       | _ \<Rightarrow> False))"

text \<open>
  \<^verbatim>\<open>IPv6Address(s)\<close> succeeds: no slash, a scope id after \<^verbatim>\<open>%\<close> that is not empty
  and has no further \<^verbatim>\<open>%\<close>, at least three parts, and an IPv4 address as last part
  counts for two hextets.
\<close>

definition IPv6Address_ok :: "string \<Rightarrow> bool" where
  "IPv6Address_ok s =
     (CHR ''/'' \<notin> set s \<and>
      (let addr = takeWhile (\<lambda>c. c \<noteq> CHR ''%'') s;
           scope_id = drop 1 (dropWhile (\<lambda>c. c \<noteq> CHR ''%'') s)
       in (if CHR ''%'' \<in> set s then scope_id \<noteq> [] \<and> CHR ''%'' \<notin> set scope_id else True)
          \<and> addr \<noteq> []
          \<and> (let parts = split_on (CHR '':'') addr
              in 3 \<le> length parts \<and>
                 (if CHR ''.'' \<in> set (last parts)
                  then IPv4Address_ok (last parts)
                       \<and> ip6_parts_ok (butlast parts @ [''0'', ''0''])
                  else ip6_parts_ok parts))))"

text \<open>
  \<^verbatim>\<open>
  def _check_bracketed_host(hostname):
      if hostname.startswith('v'):
          if not re.match(r"\Av[a-fA-F0-9]+\..+\Z", hostname): raise ValueError
      else:
          ip = ipaddress.ip_address(hostname)
          if isinstance(ip, ipaddress.IPv4Address): raise ValueError
  \<close>
  The result is whether the check passes.
\<close>

definition check_bracketed_host :: "string \<Rightarrow> bool" where
  "check_bracketed_host hostname =
     (if take 1 hostname = ''v'' then
        (let run = takeWhile (\<lambda>c. c \<noteq> CHR ''.'') (drop 1 hostname);
             rest = drop 1 (dropWhile (\<lambda>c. c \<noteq> CHR ''.'') (drop 1 hostname))
         in run \<noteq> [] \<and> list_all (\<lambda>c. c \<in> set hexdigits) run
            \<and> CHR ''.'' \<in> set (drop 1 hostname)
            \<and> rest \<noteq> [] \<and> CHR 0x0A \<notin> set rest)
      else if IPv4Address_ok hostname then False
      else IPv6Address_ok hostname)"

text \<open>
  \<^verbatim>\<open>urlsplit(url)\<close>. Leading C0 control characters and spaces are stripped, tabs and
  line breaks removed, then scheme, network location, fragment and query are split off in
  this order. A network location with one bracket only raises ValueError; with both, the
  host between the first \<^verbatim>\<open>[\<close> and the next \<^verbatim>\<open>]\<close> is checked. The last check of the
  library, \<^verbatim>\<open>_checknetloc\<close>, raises when the NFKC normal form of a non-ASCII network
  location holds one of \<^verbatim>\<open>/?#@:\<close>; no character of this string type (the code points
  below 256) has such a normal form, so it never raises here.
\<close>

definition urlsplit :: "string \<Rightarrow> error + (string \<times> string \<times> string \<times> string \<times> string)" where
  "urlsplit url0 =
     (let url1 = dropWhile (\<lambda>c. of_char c \<le> (32::nat)) url0;
          url2 = filter (\<lambda>c. c \<notin> set [CHR 0x09, CHR 0x0D, CHR 0x0A]) url1;
          (scheme, url3) = split_scheme url2;
          (netloc, url4) = (if take 2 url3 = ''//'' then splitnetloc url3 else ([], url3));
          lb = CHR ''['' \<in> set netloc;
          rb = CHR '']'' \<in> set netloc;
          bracketed_host = takeWhile (\<lambda>c. c \<noteq> CHR '']'')
                             (drop 1 (dropWhile (\<lambda>c. c \<noteq> CHR ''['') netloc))
      in if (lb \<and> \<not> rb) \<or> (rb \<and> \<not> lb) then Inl ValueError
         else if lb \<and> rb \<and> \<not> check_bracketed_host bracketed_host then Inl ValueError
         else
           let (url5, fragment) = (if CHR ''#'' \<in> set url4 then split1 (CHR ''#'') url4
                                   else (url4, []));
               (url6, query) = (if CHR ''?'' \<in> set url5 then split1 (CHR ''?'') url5
                                else (url5, []))
           in Inr (scheme, netloc, url6, query, fragment))"

text \<open>
  \<^verbatim>\<open>
  def _splitparams(url):
      if '/'  in url:
          i = url.find(';', url.rfind('/'))
          if i < 0: return url, ''
      else:
          i = url.find(';')
      return url[:i], url[i+1:]
  \<close>
\<close>

definition splitparams :: "string \<Rightarrow> string \<times> string" where
  "splitparams url =
     (if sep \<in> set url then
        (let r = length (upto_last sep url) - 1;
             seg = drop r url
         in if CHR '';'' \<in> set seg
            then (take r url @ takeWhile (\<lambda>c. c \<noteq> CHR '';'') seg,
                  drop 1 (dropWhile (\<lambda>c. c \<noteq> CHR '';'') seg))
            else (url, []))
      else split1 (CHR '';'') url)"

definition urlparse :: "string \<Rightarrow> error + ParseResult" where
  "urlparse url =
     (case urlsplit url of
        Inl e \<Rightarrow> Inl e
      | Inr (scheme, netloc, url', query, fragment) \<Rightarrow>
          (let (url'', params) =
                 (if scheme \<in> set uses_params \<and> CHR '';'' \<in> set url'
                  then splitparams url' else (url', []))
           in Inr (ParseResult scheme netloc url'' params query fragment)))"

text \<open>
  \<^verbatim>\<open>
  def urlunsplit(components):
      if netloc or (scheme and scheme in uses_netloc) or url[:2] == '//':
          if url and url[:1] != '/': url = '/' + url
          url = '//' + (netloc or '') + url
      if scheme:   url = scheme + ':' + url
      if query:    url = url + '?' + query
      if fragment: url = url + '#' + fragment
      return url
  \<close>
\<close>

definition urlunsplit :: "string \<Rightarrow> string \<Rightarrow> string \<Rightarrow> string \<Rightarrow> string \<Rightarrow> string" where
  "urlunsplit scheme netloc url query fragment =
     (let url1 = (if netloc \<noteq> [] \<or> (scheme \<noteq> [] \<and> scheme \<in> set uses_netloc) \<or> take 2 url = ''//''
                  then ''//'' @ netloc @ (if url \<noteq> [] \<and> take 1 url \<noteq> ''/'' then ''/'' @ url else url)
                  else url);
          url2 = (if scheme \<noteq> [] then scheme @ '':'' @ url1 else url1);
          url3 = (if query \<noteq> [] then url2 @ ''?'' @ query else url2)
      in if fragment \<noteq> [] then url3 @ ''#'' @ fragment else url3)"

text \<open>\<^verbatim>\<open>urlunparse\<close>: the parameters go back behind the path, then \<^verbatim>\<open>urlunsplit\<close>.\<close>

definition urlunparse :: "ParseResult \<Rightarrow> string" where
  "urlunparse r =
     urlunsplit (url_scheme r) (url_netloc r)
       (if url_params r \<noteq> [] then url_path r @ '';'' @ url_params r else url_path r)
       (url_query r) (url_fragment r)"

text \<open>\<^verbatim>\<open>parsed_url._replace(path=path)\<close>.\<close>

definition replace_path :: "ParseResult \<Rightarrow> string \<Rightarrow> ParseResult" where
  "replace_path r p =
     ParseResult (url_scheme r) (url_netloc r) p (url_params r) (url_query r) (url_fragment r)"

section \<open>The addition planner\<close>

text \<open>
  Modelled from the spec: \<^verbatim>\<open>Artifact\<close>, \<^verbatim>\<open>PendingArtifact\<close>, \<^verbatim>\<open>PendingContent\<close> and
  \<^verbatim>\<open>SizedIterable\<close> come from \<^verbatim>\<open>pulpcore.plugin\<close>, which is not among the sources.
  They are plain containers of the values the synchronizer passes to them. A sized
  iterable pairs what its generator produces with a length that is reported up front;
  a generator that raises before its first item is the error.
\<close>

datatype Artifact = Artifact (artifact_size: nat) (sha256: string)

datatype PendingArtifact =
  PendingArtifact (artifact: Artifact) (url: string) (relative_path: string)

datatype PendingContent =
  PendingContent (model: FileContent) (artifacts: "PendingArtifact set")

datatype 'a SizedIterable = SizedIterable (iterable: "error + 'a list") (sized_length: nat)

text \<open>
  \<^verbatim>\<open>build_additions(importer, manifest, delta)\<close>. Of the importer only
  \<^verbatim>\<open>importer.feed_url\<close> is read, and it is passed as \<open>feed\<close>. The URL is parsed when the
  function is called; one item is generated for each manifest entry whose key is an
  addition, in the order of the manifest.
\<close>

definition build_additions ::
  "string \<Rightarrow> Manifest \<Rightarrow> Delta \<Rightarrow> error + PendingContent SizedIterable" where
  "build_additions feed manifest delta =
     (case urlparse feed of
        Inl e \<Rightarrow> Inl e
      | Inr parsed_url \<Rightarrow>
          (let root_dir = dirname (url_path parsed_url);
               generate =
                 map (\<lambda>entry.
                        PendingContent
                          (FileContent None (e_path entry) (e_digest entry))
                          {PendingArtifact
                             (Artifact (e_size entry) (e_digest entry))
                             (urlunparse (replace_path parsed_url (join root_dir (e_path entry))))
                             (e_path entry)})
                   (filter (\<lambda>entry. Key (e_path entry) (e_digest entry) \<in> additions delta)
                      (read manifest))
           in Inr (SizedIterable (Inr generate) (card (additions delta)))))"

text \<open>The items a planner produces: those of the generator of its sized iterable, none
  when the planner or its generator raised.\<close>

definition generated :: "error + 'a SizedIterable \<Rightarrow> 'a list" where
  "generated r = (case r of Inr (SizedIterable (Inr xs) n) \<Rightarrow> xs | _ \<Rightarrow> [])"

section \<open>The removal planner\<close>

text \<open>
  Modelled from the spec: \<^verbatim>\<open>BatchIterator\<close> of \<^verbatim>\<open>pulpcore.plugin.changeset\<close> is not
  among the sources. It yields the items of an iterable, in their order, in consecutive
  batches of a fixed size, the last one possibly shorter, and stops at the first empty
  batch. The batch size is a parameter.
\<close>

function BatchIterator :: "nat \<Rightarrow> 'a list \<Rightarrow> 'a list list" where
  "BatchIterator batch xs =
     (if take batch xs = [] then []
      else take batch xs # BatchIterator batch (drop batch xs))"
  by pat_completeness auto
termination
  by (relation "measure (\<lambda>(batch, xs). length xs)") auto

declare BatchIterator.simps [simp del]

text \<open>
  Modelled from the spec: the query objects \<^verbatim>\<open>Q\<close> of \<^verbatim>\<open>django.db.models\<close> are not
  among the sources. The planner builds, for one batch, the disjunction of one condition
  per key, "path and digest equal those of the key", starting from the empty query, which
  is neutral for \<^verbatim>\<open>|=\<close> and filters nothing out.
\<close>

datatype Q = Q_empty | Q_filecontent string string | Q_or Q Q

fun q_or :: "Q \<Rightarrow> Q \<Rightarrow> Q" where
  "q_or Q_empty q = q"
| "q_or q Q_empty = q"
| "q_or q q' = Q_or q q'"

fun q_matches :: "Q \<Rightarrow> FileContent \<Rightarrow> bool" where
  "q_matches Q_empty file = True"
| "q_matches (Q_filecontent p d) file = (fc_path file = p \<and> fc_digest file = d)"
| "q_matches (Q_or q q') file = (q_matches q file \<or> q_matches q' file)"

text \<open>
  \<^verbatim>\<open>
  q = Q()
  for key in removals:
      q |= Q(filecontent__path=key.path, filecontent__digest=key.digest)
  \<close>
\<close>

definition batch_query :: "Key list \<Rightarrow> Q" where
  "batch_query removals' =
     foldl (\<lambda>q key. q_or q (Q_filecontent (path key) (digest key))) Q_empty removals'"

text \<open>
  \<^verbatim>\<open>build_removals(base_version, delta)\<close>. The set \<^verbatim>\<open>delta.removals\<close> is iterated in
  an order that Python does not fix: \<open>order\<close> gives the sequence in which a set is
  iterated. \<open>batch\<close> is the batch size of the \<^verbatim>\<open>BatchIterator\<close>. The generator reads
  \<^verbatim>\<open>base_version.content\<close> once per batch, which raises AttributeError when there
  is no base version; with no batch it is never read. \<^verbatim>\<open>q_set.only('id')\<close> limits the
  fields that are loaded of a record, not the records; the records are yielded as they are.
\<close>

definition build_removals ::
  "(Key set \<Rightarrow> Key list) \<Rightarrow> nat \<Rightarrow> RepositoryVersion option \<Rightarrow> Delta \<Rightarrow> FileContent SizedIterable" where
  "build_removals order batch base_version delta =
     (let generate =
            (case BatchIterator batch (order (removals delta)) of
               [] \<Rightarrow> Inr []
             | b # bs \<Rightarrow>
                 (case base_version of
                    None \<Rightarrow> Inl AttributeError
                  | Some v \<Rightarrow>
                      Inr (concat (map (\<lambda>removals'. filter (q_matches (batch_query removals')) (content v))
                                     (b # bs)))))
      in SizedIterable generate (card (removals delta)))"

text \<open>The lookup the batches are compared with: one lookup of the content of the base
  version whose natural key is any of the keys.\<close>

definition unbatched_lookup :: "RepositoryVersion \<Rightarrow> Key set \<Rightarrow> FileContent list" where
  "unbatched_lookup v keys =
     filter (\<lambda>file. Key (fc_path file) (fc_digest file) \<in> keys) (content v)"

section \<open>The orchestrator and its collaborators\<close>

text \<open>
  Modelled from the spec: the importer and repository models, the version store, the
  downloader, the apply engine and the working directory belong to \<^verbatim>\<open>pulpcore\<close> and to
  \<^verbatim>\<open>pulp_file.app.models\<close>, which are not among the sources. What the orchestrator
  needs of them is written below from the interfaces the specification gives:
  \<^verbatim>\<open>create_provisional\<close>, \<^verbatim>\<open>seal\<close>, \<^verbatim>\<open>latest\<close>; \<^verbatim>\<open>fetch(url)\<close> raising a transport
  error; \<^verbatim>\<open>apply\<close> returning one report per planned item.
\<close>

datatype FileImporter = FileImporter (importer_name: string) (feed_url: "string option")

datatype Repository = Repository (repo_pk: string) (repo_name: string)

datatype Action = ADD | REMOVE

text \<open>A report of the apply engine: the action, the content, and whether the item
  failed.\<close>

datatype ChangeReport = ChangeReport (action: Action) (reported: FileContent) (failed: bool)

text \<open>What a run does to the outside, in the order it happens.\<close>

datatype Event =
    WorkingDirectoryEntered
  | WorkingDirectoryExited
  | VersionCreated nat
  | VersionSealed nat
  | VersionDeleted nat
  | DownloadStarted string
  | DebugLogged ChangeReport

text \<open>
  The environment of a run: the stored importers and repositories by primary key, the
  outcome of downloading a URL and reading the manifest downloaded, the order in which
  Python iterates a set of keys, the batch size of the \<^verbatim>\<open>BatchIterator\<close>, which planned
  items fail in the apply engine, and whether the logger is enabled for DEBUG.
\<close>

record Env =
  importers :: "string \<rightharpoonup> FileImporter"
  repositories :: "string \<rightharpoonup> Repository"
  download :: "string \<Rightarrow> error + Manifest"
  iteration_order :: "Key set \<Rightarrow> Key list"
  batch_size :: nat
  addition_fails :: "PendingContent \<Rightarrow> bool"
  removal_fails :: "FileContent \<Rightarrow> bool"
  debug_enabled :: bool

text \<open>The state a run changes: the table of repository versions, oldest first, and the
  events so far.\<close>

record World =
  versions :: "RepositoryVersion list"
  events :: "Event list"

definition log_event :: "Event \<Rightarrow> World \<Rightarrow> World" where
  "log_event e w = w\<lparr>events := events w @ [e]\<rparr>"

text \<open>The versions of one repository.\<close>

definition versions_of :: "Repository \<Rightarrow> World \<Rightarrow> RepositoryVersion list" where
  "versions_of repo w = filter (\<lambda>v. repository v = repo_pk repo) (versions w)"

text \<open>\<^verbatim>\<open>RepositoryVersion.latest(repository)\<close>: the newest sealed version, if any.\<close>

definition latest :: "Repository \<Rightarrow> World \<Rightarrow> RepositoryVersion option" where
  "latest repo w =
     (case filter complete (versions_of repo w) of
        [] \<Rightarrow> None
      | v # vs \<Rightarrow> Some (last (v # vs)))"

text \<open>\<^verbatim>\<open>RepositoryVersion.create(repository)\<close>: a provisional version with the next
  number, derived from the latest version, or from nothing when there is none.\<close>

definition next_number :: "Repository \<Rightarrow> World \<Rightarrow> nat" where
  "next_number repo w = Suc (foldr max (map number (versions_of repo w)) 0)"

definition create :: "Repository \<Rightarrow> World \<Rightarrow> RepositoryVersion \<times> World" where
  "create repo w =
     (let new_version =
            RepositoryVersion (repo_pk repo) (next_number repo w)
              (case latest repo w of None \<Rightarrow> [] | Some v \<Rightarrow> content v) False
      in (new_version,
          log_event (VersionCreated (number new_version))
            (w\<lparr>versions := versions w @ [new_version]\<rparr>)))"

text \<open>The stored row of a version is found by its repository and its number.\<close>

definition same_version :: "RepositoryVersion \<Rightarrow> RepositoryVersion \<Rightarrow> bool" where
  "same_version v x = (repository x = repository v \<and> number x = number v)"

definition update_version ::
  "RepositoryVersion \<Rightarrow> (RepositoryVersion \<Rightarrow> RepositoryVersion) \<Rightarrow> World \<Rightarrow> World" where
  "update_version v f w =
     w\<lparr>versions := map (\<lambda>x. if same_version v x then f x else x) (versions w)\<rparr>"

definition seal :: "RepositoryVersion \<Rightarrow> World \<Rightarrow> World" where
  "seal v w =
     log_event (VersionSealed (number v))
       (update_version v
          (\<lambda>x. RepositoryVersion (repository x) (number x) (content x) True) w)"

definition delete :: "RepositoryVersion \<Rightarrow> World \<Rightarrow> World" where
  "delete v w =
     log_event (VersionDeleted (number v))
       (w\<lparr>versions := filter (\<lambda>x. \<not> same_version v x) (versions w)\<rparr>)"

text \<open>
  \<^verbatim>\<open>with RepositoryVersion.create(repository) as new_version: body\<close>. The provisional
  version is created on entry; it is sealed when the body ends normally and deleted when
  the body raises, and the exception goes on.
\<close>

definition with_new_version ::
  "Repository \<Rightarrow> (RepositoryVersion \<Rightarrow> World \<Rightarrow> (error + unit) \<times> World)
     \<Rightarrow> World \<Rightarrow> (error + unit) \<times> World" where
  "with_new_version repo body w =
     (let (new_version, w1) = create repo w
      in case body new_version w1 of
           (Inl e, w2) \<Rightarrow> (Inl e, delete new_version w2)
         | (Inr u, w2) \<Rightarrow> (Inr u, seal new_version w2))"

text \<open>\<^verbatim>\<open>with WorkingDirectory(): body\<close>: entered, and left on every exit path.\<close>

definition WorkingDirectory ::
  "(World \<Rightarrow> (error + unit) \<times> World) \<Rightarrow> World \<Rightarrow> (error + unit) \<times> World" where
  "WorkingDirectory body w =
     (let (r, w1) = body (log_event WorkingDirectoryEntered w)
      in (r, log_event WorkingDirectoryExited w1))"

text \<open>
  The apply engine, \<^verbatim>\<open>ChangeSet(...).apply()\<close>. Every planned addition that does not
  fail is attached to the version, every planned removal that does not fail is detached,
  and one report is produced per planned item, additions first. A plan whose generator
  raises makes \<^verbatim>\<open>apply\<close> raise.
\<close>

definition apply_changeset ::
  "Env \<Rightarrow> RepositoryVersion \<Rightarrow> PendingContent SizedIterable \<Rightarrow> FileContent SizedIterable
     \<Rightarrow> World \<Rightarrow> (error + ChangeReport list) \<times> World" where
  "apply_changeset env new_version additions' removals' w =
     (case iterable additions' of
        Inl e \<Rightarrow> (Inl e, w)
      | Inr adds \<Rightarrow>
          (let attached = map model (filter (\<lambda>p. \<not> addition_fails env p) adds);
               w1 = update_version new_version
                      (\<lambda>x. RepositoryVersion (repository x) (number x)
                              (content x @ attached) (complete x)) w;
               add_reports = map (\<lambda>p. ChangeReport ADD (model p) (addition_fails env p)) adds
           in case iterable removals' of
                Inl e \<Rightarrow> (Inl e, w1)
              | Inr rems \<Rightarrow>
                  (let detached = filter (\<lambda>c. \<not> removal_fails env c) rems;
                       w2 = update_version new_version
                              (\<lambda>x. RepositoryVersion (repository x) (number x)
                                      (filter (\<lambda>c. c \<notin> set detached) (content x))
                                      (complete x)) w1;
                       remove_reports = map (\<lambda>c. ChangeReport REMOVE c (removal_fails env c)) rems
                   in (Inr (add_reports @ remove_reports), w2))))"

text \<open>
  \<^verbatim>\<open>fetch_manifest(importer)\<close>: the downloader fetches \<^verbatim>\<open>importer.feed_url\<close>, passed
  as \<open>feed\<close>, and the manifest is the file downloaded.
\<close>

definition fetch_manifest :: "Env \<Rightarrow> string \<Rightarrow> World \<Rightarrow> (error + Manifest) \<times> World" where
  "fetch_manifest env feed w = (download env feed, log_event (DownloadStarted feed) w)"

text \<open>
  The loop over the reports:
  \<^verbatim>\<open>
  for report in changeset.apply():
      if not log.isEnabledFor(logging.DEBUG):
          continue
      log.debug(..., {'r': repository.name, 'p': importer.name, 'c': report})
  \<close>
\<close>

definition log_reports :: "Env \<Rightarrow> ChangeReport list \<Rightarrow> World \<Rightarrow> World" where
  "log_reports env reports w =
     foldl (\<lambda>w report. if \<not> debug_enabled env then w else log_event (DebugLogged report) w)
       w reports"

text \<open>
  The body of the \<^verbatim>\<open>with\<close> statements of \<^verbatim>\<open>synchronize\<close>. The call
  \<^verbatim>\<open>find_delta(manifest, content)\<close> leaves \<^verbatim>\<open>mirror\<close> at its default, True, and
  \<^verbatim>\<open>BatchIterator(delta.removals)\<close> in the removal planner leaves the batch size at
  the default of the iterator, which the environment gives.
\<close>

definition synchronize_body ::
  "Env \<Rightarrow> string \<Rightarrow> RepositoryVersion option \<Rightarrow> RepositoryVersion \<Rightarrow> World
     \<Rightarrow> (error + unit) \<times> World" where
  "synchronize_body env feed base_version new_version w =
     (case fetch_manifest env feed w of
        (Inl e, w1) \<Rightarrow> (Inl e, w1)
      | (Inr manifest, w1) \<Rightarrow>
          (let content_keys = fetch_content base_version;
               delta = find_delta manifest content_keys True
           in case build_additions feed manifest delta of
                Inl e \<Rightarrow> (Inl e, w1)
              | Inr additions' \<Rightarrow>
                  (let removals' = build_removals (iteration_order env) (batch_size env)
                                     base_version delta
                   in case apply_changeset env new_version additions' removals' w1 of
                        (Inl e, w2) \<Rightarrow> (Inl e, w2)
                      | (Inr reports, w2) \<Rightarrow> (Inr (), log_reports env reports w2))))"

text \<open>
  \<^verbatim>\<open>synchronize(importer_pk, repository_pk)\<close>. The importer, the repository and the
  latest version are looked up first; an importer without a feed URL raises ValueError
  before the working directory and the new version are entered.
\<close>

definition synchronize :: "Env \<Rightarrow> string \<Rightarrow> string \<Rightarrow> World \<Rightarrow> (error + unit) \<times> World" where
  "synchronize env importer_pk repository_pk w =
     (case importers env importer_pk of
        None \<Rightarrow> (Inl DoesNotExist, w)
      | Some importer \<Rightarrow>
          (case repositories env repository_pk of
             None \<Rightarrow> (Inl DoesNotExist, w)
           | Some repo \<Rightarrow>
               (let base_version = latest repo w
                in case feed_url importer of
                     None \<Rightarrow> (Inl ValueError, w)
                   | Some feed \<Rightarrow>
                       if feed = [] then (Inl ValueError, w)
                       else WorkingDirectory
                              (with_new_version repo
                                 (synchronize_body env feed base_version)) w)))"

section \<open>The parameters of the entry point\<close>

text \<open>
  A call \<^verbatim>\<open>f(*args, **kwargs)\<close> of a Python function binds its parameters: the
  positional arguments fill the parameters from the left, a keyword argument must name a
  parameter that is not yet bound, and a parameter left unbound takes its default or, when
  it has none, the call raises TypeError. Values that are passed are strings, booleans,
  integers, or objects that are not looked into.
\<close>

datatype pyval = PyStr string | PyBool bool | PyInt int | PyObject nat

datatype Parameter = Parameter (param_name: string) (param_default: "pyval option")

fun bind_keywords :: "Parameter list \<Rightarrow> (string \<times> pyval) list \<Rightarrow> error + (string \<times> pyval) list" where
  "bind_keywords [] kwargs = Inr []"
| "bind_keywords (p # ps) kwargs =
     (case (case map_of kwargs (param_name p) of
              Some v \<Rightarrow> Some v
            | None \<Rightarrow> param_default p) of
        None \<Rightarrow> Inl TypeError
      | Some v \<Rightarrow>
          (case bind_keywords ps kwargs of
             Inl e \<Rightarrow> Inl e
           | Inr bound \<Rightarrow> Inr ((param_name p, v) # bound)))"

definition bind_arguments ::
  "Parameter list \<Rightarrow> pyval list \<Rightarrow> (string \<times> pyval) list \<Rightarrow> error + (string \<times> pyval) list" where
  "bind_arguments params args kwargs =
     (let names = map param_name params;
          positional = take (length args) names
      in if length params < length args then Inl TypeError
         else if list_ex (\<lambda>k. k \<notin> set names) (map fst kwargs) then Inl TypeError
         else if list_ex (\<lambda>k. k \<in> set positional) (map fst kwargs) then Inl TypeError
         else (case bind_keywords (drop (length args) params) kwargs of
                 Inl e \<Rightarrow> Inl e
               | Inr bound \<Rightarrow> Inr (zip positional args @ bound)))"

text \<open>\<^verbatim>\<open>def synchronize(importer_pk, repository_pk)\<close>\<close>

definition synchronize_parameters :: "Parameter list" where
  "synchronize_parameters = [Parameter ''importer_pk'' None, Parameter ''repository_pk'' None]"

text \<open>\<^verbatim>\<open>def find_delta(manifest, content, mirror=True)\<close>\<close>

definition find_delta_parameters :: "Parameter list" where
  "find_delta_parameters =
     [Parameter ''manifest'' None, Parameter ''content'' None,
      Parameter ''mirror'' (Some (PyBool True))]"

text \<open>
  The task as it is called, \<^verbatim>\<open>synchronize(*args, **kwargs)\<close>: the arguments are bound
  to the two parameters, then the body runs with the two primary keys, which are strings.
  What a lookup does with a key that is not a string is not among the sources.
\<close>

definition synchronize_task ::
  "Env \<Rightarrow> pyval list \<Rightarrow> (string \<times> pyval) list \<Rightarrow> World \<Rightarrow> (error + unit) \<times> World" where
  "synchronize_task env args kwargs w =
     (case bind_arguments synchronize_parameters args kwargs of
        Inl e \<Rightarrow> (Inl e, w)
      | Inr bound \<Rightarrow>
          (case (map_of bound ''importer_pk'', map_of bound ''repository_pk'') of
             (Some (PyStr importer_pk), Some (PyStr repository_pk)) \<Rightarrow>
                synchronize env importer_pk repository_pk w
           | _ \<Rightarrow> (Inl Unmodelled, w)))"

section \<open>Example runs\<close>

text \<open>
  An environment with one importer \<^verbatim>\<open>i\<close> and one repository \<^verbatim>\<open>r\<close>, the logger enabled
  for DEBUG and batches of two. The feed URL of the importer, the outcome of the download
  and whether the planned additions fail in the apply engine are chosen by the arguments.
  Sets of the keys (a, 1), (b, 2), (c, 3) are iterated in this order.
\<close>

definition example_env :: "string option \<Rightarrow> error + Manifest \<Rightarrow> bool \<Rightarrow> Env" where
  "example_env feed downloaded fails =
     \<lparr>importers = [''i'' \<mapsto> FileImporter ''importer'' feed],
      repositories = [''r'' \<mapsto> Repository ''r'' ''repository''],
      download = (\<lambda>u. downloaded),
      iteration_order =
        (\<lambda>s. filter (\<lambda>k. k \<in> s) [Key ''a'' ''1'', Key ''b'' ''2'', Key ''c'' ''3'']),
      batch_size = 2,
      addition_fails = (\<lambda>p. fails),
      removal_fails = (\<lambda>c. False),
      debug_enabled = True\<rparr>"

text \<open>A world without versions, and one whose repository \<^verbatim>\<open>r\<close> has the sealed version 1
  with the content (a, 1) and (b, 2).\<close>

definition empty_world :: World where
  "empty_world = \<lparr>versions = [], events = []\<rparr>"

definition example_world :: World where
  "example_world =
     \<lparr>versions = [RepositoryVersion ''r'' 1
                     [FileContent (Some 10) ''a'' ''1'', FileContent (Some 11) ''b'' ''2''] True],
      events = []\<rparr>"

section \<open>Properties of the delta\<close>

text \<open>
  C1. For the set R of remote keys read from the manifest and every set L of local keys,
  \<open>find_delta\<close> returns the additions R - L; the removals are L - R when mirroring and
  empty otherwise; additions and removals never share a key, whatever the mirror flag.
\<close>

theorem find_delta_correct:
  "additions (find_delta manifest L mirror) = remote_keys manifest - L
   \<and> removals (find_delta manifest L True) = L - remote_keys manifest
   \<and> removals (find_delta manifest L False) = {}
   \<and> additions (find_delta manifest L mirror) \<inter> removals (find_delta manifest L mirror) = {}"
  by (auto simp: find_delta_def remote_keys_def Let_def)

section \<open>Properties of the addition planner\<close>








text \<open>
  C4 as stated fails: the planner has no check of the entry's path. The entry
  \<^verbatim>\<open>../secret.iso\<close> against \<^verbatim>\<open>http://host/repo/PULP_MANIFEST\<close> is not rejected; it is
  planned with the fetch URL \<^verbatim>\<open>http://host/repo/../secret.iso\<close>, outside the base
  directory.
\<close>

theorem build_additions_traversal_counterexample:
  "build_additions ''http://host/repo/PULP_MANIFEST''
     [ManifestEntry ''../secret.iso'' ''abc'' 3]
     (find_delta [ManifestEntry ''../secret.iso'' ''abc'' 3] {} True)
   = Inr (SizedIterable
            (Inr [PendingContent (FileContent None ''../secret.iso'' ''abc'')
                    {PendingArtifact (Artifact 3 ''abc'') ''http://host/repo/../secret.iso''
                       ''../secret.iso''}])
            1)"
  by code_simp

text \<open>
  C4, amended. The addition planner never rejects an entry for its path. It raises only
  when the feed URL does not parse, whatever the manifest holds; otherwise every manifest
  entry whose key is an addition is planned, in manifest order, with the fetch URL obtained
  by joining its path, as it is, onto the directory of the feed URL's path.
\<close>

theorem build_additions_no_path_check:
  "(build_additions feed manifest delta = Inl e) = (urlparse feed = Inl e)
   \<and> map (fc_path \<circ> model) (generated (build_additions feed manifest delta))
       = (case urlparse feed of
            Inl err \<Rightarrow> []
          | Inr parsed_url \<Rightarrow>
              map e_path (filter (\<lambda>entry. Key (e_path entry) (e_digest entry) \<in> additions delta)
                            (read manifest)))
   \<and> map (\<lambda>p. url ` artifacts p) (generated (build_additions feed manifest delta))
       = (case urlparse feed of
            Inl err \<Rightarrow> []
          | Inr parsed_url \<Rightarrow>
              map (\<lambda>entry. {urlunparse (replace_path parsed_url
                                  (join (dirname (url_path parsed_url)) (e_path entry)))})
                (filter (\<lambda>entry. Key (e_path entry) (e_digest entry) \<in> additions delta)
                   (read manifest)))"
  by (cases "urlparse feed") (simp_all add: build_additions_def generated_def Let_def comp_def)

text \<open>
  C7 at a manifest that lists the record (a, 1) twice, against an empty base version: the
  delta has the single addition (a, 1) and the sized iterable reports the length 1, but
  the generator produces two plan items for that key, one per manifest record.
\<close>

theorem build_additions_duplicate_records:
  "build_additions ''http://host/repo/PULP_MANIFEST''
     [ManifestEntry ''a'' ''1'' 7, ManifestEntry ''a'' ''1'' 7]
     (find_delta [ManifestEntry ''a'' ''1'' 7, ManifestEntry ''a'' ''1'' 7] {} True)
   = Inr (SizedIterable
            (Inr [PendingContent (FileContent None ''a'' ''1'')
                    {PendingArtifact (Artifact 7 ''1'') ''http://host/repo/a'' ''a''},
                  PendingContent (FileContent None ''a'' ''1'')
                    {PendingArtifact (Artifact 7 ''1'') ''http://host/repo/a'' ''a''}])
            1)"
  by code_simp

section \<open>Properties of the removal planner\<close>

lemma q_matches_q_or: "q \<noteq> Q_empty \<Longrightarrow> q' \<noteq> Q_empty \<Longrightarrow> q_matches (q_or q q') f = (q_matches q f \<or> q_matches q' f)"
  by (cases q; cases q') simp_all

lemma q_matches_foldl:
  "q \<noteq> Q_empty \<Longrightarrow>
   q_matches (foldl (\<lambda>q key. q_or q (Q_filecontent (path key) (digest key))) q ks) f
     = (q_matches q f \<or> Key (fc_path f) (fc_digest f) \<in> set ks)"
proof (induction ks arbitrary: q)
  case Nil
  then show ?case by simp
next
  case (Cons k ks)
  have ne: "q_or q (Q_filecontent (path k) (digest k)) \<noteq> Q_empty"
    using Cons.prems by (cases q) simp_all
  have "Key (fc_path f) (fc_digest f) = k \<longleftrightarrow> fc_path f = path k \<and> fc_digest f = digest k"
    by (cases k) auto
  then show ?case
    using Cons.IH[OF ne] Cons.prems by (auto simp: q_matches_q_or)
qed

lemma q_matches_batch_query:
  "ks \<noteq> [] \<Longrightarrow> q_matches (batch_query ks) f = (Key (fc_path f) (fc_digest f) \<in> set ks)"
proof (cases ks)
  case Nil
  then show "ks \<noteq> [] \<Longrightarrow> ?thesis" by simp
next
  case (Cons k ks')
  have "Key (fc_path f) (fc_digest f) = k \<longleftrightarrow> fc_path f = path k \<and> fc_digest f = digest k"
    by (cases k) auto
  then show ?thesis
    unfolding Cons batch_query_def
    using q_matches_foldl[of "Q_filecontent (path k) (digest k)" ks' f] by auto
qed

lemma BatchIterator_nonempty: "b \<in> set (BatchIterator n xs) \<Longrightarrow> b \<noteq> []"
proof (induction n xs rule: BatchIterator.induct)
  case (1 batch xs)
  have e: "BatchIterator batch xs =
     (if take batch xs = [] then [] else take batch xs # BatchIterator batch (drop batch xs))"
    by (rule BatchIterator.simps)
  show ?case
  proof (cases "take batch xs = []")
    case True
    then have "BatchIterator batch xs = []" using e by simp
    then show ?thesis using "1.prems" by simp
  next
    case False
    then have "BatchIterator batch xs = take batch xs # BatchIterator batch (drop batch xs)"
      using e by simp
    then have "b = take batch xs \<or> b \<in> set (BatchIterator batch (drop batch xs))"
      using "1.prems" by simp
    then show ?thesis using False "1.IH"[OF False] by auto
  qed
qed

lemma concat_BatchIterator: "0 < n \<Longrightarrow> concat (BatchIterator n xs) = xs"
proof (induction n xs rule: BatchIterator.induct)
  case (1 batch xs)
  have e: "BatchIterator batch xs =
     (if take batch xs = [] then [] else take batch xs # BatchIterator batch (drop batch xs))"
    by (rule BatchIterator.simps)
  show ?case
  proof (cases "take batch xs = []")
    case True
    then have "xs = []" using "1.prems" by (cases xs) auto
    moreover have "BatchIterator batch xs = []" using e True by simp
    ultimately show ?thesis by simp
  next
    case False
    then have "BatchIterator batch xs = take batch xs # BatchIterator batch (drop batch xs)"
      using e by simp
    moreover have "concat (BatchIterator batch (drop batch xs)) = drop batch xs"
      using "1.IH"[OF False "1.prems"] .
    ultimately show ?thesis by simp
  qed
qed

lemma mset_batched_filter:
  "distinct (concat bs) \<Longrightarrow>
   mset (concat (map (\<lambda>b. filter (\<lambda>f. g f \<in> set b) cs) bs))
     = mset (filter (\<lambda>f. g f \<in> set (concat bs)) cs)"
proof (induction bs)
  case Nil
  then show ?case by simp
next
  case (Cons b bs)
  then have dj: "set b \<inter> set (concat bs) = {}" and d: "distinct (concat bs)" by auto
  have "mset (filter (\<lambda>f. g f \<in> set b) cs) + mset (filter (\<lambda>f. g f \<in> set (concat bs)) cs)
        = mset (filter (\<lambda>f. g f \<in> set b \<or> g f \<in> set (concat bs)) cs)"
    using dj by (induction cs) auto
  then show ?case using Cons.IH[OF d] by (simp del: set_concat)
qed

text \<open>
  C8. For every removal set, iterated in any order without repetition, and every positive
  batch size, the batched lookups of the removal planner together produce the content
  records of the base version that one unbatched lookup of all the keys produces, each
  record as many times as the unbatched lookup does: none is missing and none is
  repeated. The sizes 0, 1, the batch size and the batch size plus one are instances.
\<close>

theorem build_removals_batched_eq_unbatched:
  assumes "0 < batch"
      and "distinct (order (removals delta))"
      and "set (order (removals delta)) = removals delta"
  shows "\<exists>items. iterable (build_removals order batch (Some v) delta) = Inr items
           \<and> mset items = mset (unbatched_lookup v (removals delta))"
proof -
  let ?ks = "order (removals delta)"
  let ?bs = "BatchIterator batch ?ks"
  have cc: "concat ?bs = ?ks" using assms(1) by (rule concat_BatchIterator)
  have eq: "map (\<lambda>b. filter (q_matches (batch_query b)) (content v)) ?bs
          = map (\<lambda>b. filter (\<lambda>f. Key (fc_path f) (fc_digest f) \<in> set b) (content v)) ?bs"
    by (rule map_cong[OF refl]) (simp add: q_matches_batch_query BatchIterator_nonempty cong: filter_cong)
  have it: "iterable (build_removals order batch (Some v) delta)
          = Inr (concat (map (\<lambda>b. filter (q_matches (batch_query b)) (content v)) ?bs))"
    by (cases ?bs) (simp_all add: build_removals_def Let_def)
  have "mset (concat (map (\<lambda>b. filter (\<lambda>f. Key (fc_path f) (fc_digest f) \<in> set b) (content v)) ?bs))
      = mset (filter (\<lambda>f. Key (fc_path f) (fc_digest f) \<in> set (concat ?bs)) (content v))"
    using assms(2) cc by (intro mset_batched_filter) simp
  then have "mset (concat (map (\<lambda>b. filter (q_matches (batch_query b)) (content v)) ?bs))
      = mset (unbatched_lookup v (removals delta))"
    unfolding eq cc assms(3) unbatched_lookup_def .
  then show ?thesis using it by simp
qed

theorem build_removals_batched_eq_unbatched_witness:
  "\<exists>items.
     iterable (build_removals (\<lambda>s. [Key ''a'' ''1'', Key ''b'' ''2'', Key ''c'' ''3'']) 2
       (Some (RepositoryVersion ''r'' 1
          [FileContent (Some 10) ''a'' ''1'', FileContent (Some 11) ''b'' ''2'',
           FileContent (Some 12) ''c'' ''3'', FileContent (Some 13) ''d'' ''4''] True))
       (Delta {} {Key ''a'' ''1'', Key ''b'' ''2'', Key ''c'' ''3''})) = Inr items
     \<and> mset items =
         mset (unbatched_lookup
           (RepositoryVersion ''r'' 1
              [FileContent (Some 10) ''a'' ''1'', FileContent (Some 11) ''b'' ''2'',
               FileContent (Some 12) ''c'' ''3'', FileContent (Some 13) ''d'' ''4''] True)
           {Key ''a'' ''1'', Key ''b'' ''2'', Key ''c'' ''3''})"
proof -
  have b: "0 < (2::nat)" by simp
  have d: "distinct ((\<lambda>s. [Key ''a'' ''1'', Key ''b'' ''2'', Key ''c'' ''3''])
             (removals (Delta {} {Key ''a'' ''1'', Key ''b'' ''2'', Key ''c'' ''3''})))"
    by simp
  have e: "set ((\<lambda>s. [Key ''a'' ''1'', Key ''b'' ''2'', Key ''c'' ''3''])
             (removals (Delta {} {Key ''a'' ''1'', Key ''b'' ''2'', Key ''c'' ''3''})))
           = removals (Delta {} {Key ''a'' ''1'', Key ''b'' ''2'', Key ''c'' ''3''})"
    by auto
  show ?thesis
    using build_removals_batched_eq_unbatched [OF b d e] by simp
qed

section \<open>Properties of the orchestrator\<close>

lemma versions_log_event: "versions (log_event e w) = versions w"
  by (simp add: log_event_def)

lemma events_log_event: "events (log_event e w) = events w @ [e]"
  by (simp add: log_event_def)

lemma versions_update_version:
  "versions (update_version v f w) = map (\<lambda>x. if same_version v x then f x else x) (versions w)"
  by (simp add: update_version_def)

lemma events_update_version: "events (update_version v f w) = events w"
  by (simp add: update_version_def)

lemma versions_log_reports: "versions (log_reports env reports w) = versions w"
  unfolding log_reports_def
  by (induction reports arbitrary: w) (simp_all add: versions_log_event)

lemma events_log_reports:
  "events (log_reports env reports w)
     = events w @ (if debug_enabled env then map DebugLogged reports else [])"
  unfolding log_reports_def
  by (induction reports arbitrary: w) (simp_all add: events_log_event)

lemma foldr_max_ge: "x \<in> set xs \<Longrightarrow> x \<le> foldr max xs (0::nat)"
  by (induction xs) (auto simp: max_def)

lemma next_number_fresh:
  "x \<in> set (versions w) \<Longrightarrow> repository x = repo_pk repo \<Longrightarrow> number x < next_number repo w"
proof -
  assume "x \<in> set (versions w)" "repository x = repo_pk repo"
  then have "number x \<in> set (map number (versions_of repo w))"
    by (simp add: versions_of_def)
  then have "number x \<le> foldr max (map number (versions_of repo w)) 0"
    by (rule foldr_max_ge)
  then show ?thesis by (simp add: next_number_def)
qed

lemma not_same_version_fresh:
  "x \<in> set (versions w) \<Longrightarrow>
   \<not> same_version (RepositoryVersion (repo_pk repo) (next_number repo w) c b) x"
  using next_number_fresh[of x w repo] by (auto simp: same_version_def)

lemma filter_fresh:
  "filter (\<lambda>x. \<not> same_version (RepositoryVersion (repo_pk repo) (next_number repo w) c b) x)
     (versions w) = versions w"
  by (simp add: filter_id_conv not_same_version_fresh)

lemma map_fresh:
  "map (\<lambda>x. if same_version (RepositoryVersion (repo_pk repo) (next_number repo w) c b) x
            then f x else x) (versions w) = versions w"
  by (simp add: map_idI not_same_version_fresh)

lemma same_version_self:
  "same_version (RepositoryVersion r n c b) (RepositoryVersion r n c' b')"
  by (simp add: same_version_def)

lemma next_number_events: "next_number repo (w\<lparr>events := ev\<rparr>) = next_number repo w"
  by (simp add: next_number_def versions_of_def)

lemma latest_events: "latest repo (w\<lparr>events := ev\<rparr>) = latest repo w"
  by (simp add: latest_def versions_of_def)

lemma synchronize_download_fails:
  assumes "importers env importer_pk = Some importer"
      and "repositories env repository_pk = Some repo"
      and "feed_url importer = Some feed" and "feed \<noteq> []"
      and "download env feed = Inl e"
  shows "synchronize env importer_pk repository_pk w =
           (Inl e,
            w\<lparr>events := events w @
                 [WorkingDirectoryEntered, VersionCreated (next_number repo w),
                  DownloadStarted feed, VersionDeleted (next_number repo w),
                  WorkingDirectoryExited]\<rparr>)"
  using assms
  by (simp add: synchronize_def Let_def WorkingDirectory_def with_new_version_def create_def
        synchronize_body_def fetch_manifest_def delete_def log_event_def same_version_self
        next_number_events latest_events filter_fresh)


lemma build_additions_Inr:
  "urlparse feed = Inr pu \<Longrightarrow>
   build_additions feed manifest delta
     = Inr (SizedIterable (Inr (generated (build_additions feed manifest delta)))
              (card (additions delta)))"
  by (simp add: build_additions_def generated_def Let_def)

lemma synchronize_body_success:
  assumes "download env feed = Inr manifest"
      and "urlparse feed = Inr pu"
      and "iterable (build_removals (iteration_order env) (batch_size env) base
              (find_delta manifest (fetch_content base) True)) = Inr rems"
  shows "synchronize_body env feed base nv w =
     (Inr (),
      log_reports env
        (map (\<lambda>p. ChangeReport ADD (model p) (addition_fails env p))
           (generated (build_additions feed manifest (find_delta manifest (fetch_content base) True)))
         @ map (\<lambda>c. ChangeReport REMOVE c (removal_fails env c)) rems)
        (update_version nv
           (\<lambda>x. RepositoryVersion (repository x) (number x)
                   (filter (\<lambda>c. c \<notin> set (filter (\<lambda>c. \<not> removal_fails env c) rems)) (content x))
                   (complete x))
           (update_version nv
              (\<lambda>x. RepositoryVersion (repository x) (number x)
                   (content x @ map model (filter (\<lambda>p. \<not> addition_fails env p)
                      (generated (build_additions feed manifest
                          (find_delta manifest (fetch_content base) True)))))
                   (complete x))
              (log_event (DownloadStarted feed) w))))"
proof -
  let ?delta = "find_delta manifest (fetch_content base) True"
  define adds where "adds = generated (build_additions feed manifest ?delta)"
  have a: "build_additions feed manifest ?delta
     = Inr (SizedIterable (Inr adds) (card (additions ?delta)))"
    unfolding adds_def using assms(2) by (rule build_additions_Inr)
  show ?thesis
    unfolding adds_def[symmetric]
    by (simp add: synchronize_body_def fetch_manifest_def assms(1,3) Let_def a
        apply_changeset_def)
qed

lemma synchronize_success:
  assumes "importers env importer_pk = Some importer"
      and "repositories env repository_pk = Some repo"
      and "feed_url importer = Some feed" and "feed \<noteq> []"
      and "download env feed = Inr manifest"
      and "urlparse feed = Inr pu"
      and "iterable (build_removals (iteration_order env) (batch_size env) (latest repo w)
              (find_delta manifest (fetch_content (latest repo w)) True)) = Inr rems"
  shows "synchronize env importer_pk repository_pk w =
     (Inr (),
      w\<lparr>versions := versions w @
           [RepositoryVersion (repo_pk repo) (next_number repo w)
              (filter (\<lambda>c. c \<notin> set (filter (\<lambda>c. \<not> removal_fails env c) rems))
                 ((case latest repo w of None \<Rightarrow> [] | Some v \<Rightarrow> content v)
                  @ map model (filter (\<lambda>p. \<not> addition_fails env p)
                      (generated (build_additions feed manifest
                          (find_delta manifest (fetch_content (latest repo w)) True))))))
              True],
         events := events w @
           [WorkingDirectoryEntered, VersionCreated (next_number repo w), DownloadStarted feed]
           @ (if debug_enabled env
              then map DebugLogged
                     (map (\<lambda>p. ChangeReport ADD (model p) (addition_fails env p))
                        (generated (build_additions feed manifest
                           (find_delta manifest (fetch_content (latest repo w)) True)))
                      @ map (\<lambda>c. ChangeReport REMOVE c (removal_fails env c)) rems)
              else [])
           @ [VersionSealed (next_number repo w), WorkingDirectoryExited]\<rparr>)"
proof -
  let ?delta = "find_delta manifest (fetch_content (latest repo w)) True"
  let ?adds = "generated (build_additions feed manifest ?delta)"
  let ?reports = "map (\<lambda>p. ChangeReport ADD (model p) (addition_fails env p)) ?adds
                  @ map (\<lambda>c. ChangeReport REMOVE c (removal_fails env c)) rems"
  let ?n = "next_number repo w"
  let ?base = "case latest repo w of None \<Rightarrow> [] | Some v \<Rightarrow> content v"
  define nv where "nv = RepositoryVersion (repo_pk repo) ?n ?base False"
  define w0 where "w0 = log_event WorkingDirectoryEntered w"
  define w1 where "w1 = log_event (VersionCreated ?n) (w0\<lparr>versions := versions w0 @ [nv]\<rparr>)"
  define w2 where "w2 =
     log_reports env ?reports
        (update_version nv
           (\<lambda>x. RepositoryVersion (repository x) (number x)
                   (filter (\<lambda>c. c \<notin> set (filter (\<lambda>c. \<not> removal_fails env c) rems)) (content x))
                   (complete x))
           (update_version nv
              (\<lambda>x. RepositoryVersion (repository x) (number x)
                   (content x @ map model (filter (\<lambda>p. \<not> addition_fails env p) ?adds))
                   (complete x))
              (log_event (DownloadStarted feed) w1)))"
  define W where "W = log_event WorkingDirectoryExited (seal nv w2)"
  have nn: "next_number repo w0 = ?n" and lt: "latest repo w0 = latest repo w"
    by (simp_all add: w0_def log_event_def next_number_events latest_events)
  have cr: "create repo w0 = (nv, w1)"
    by (simp add: create_def Let_def nn lt nv_def w1_def)
  have body: "synchronize_body env feed (latest repo w) nv w1 = (Inr (), w2)"
    unfolding w2_def by (rule synchronize_body_success[OF assms(5,6,7)])
  have run: "synchronize env importer_pk repository_pk w = (Inr (), W)"
    using assms(1-4)
    by (simp add: synchronize_def Let_def WorkingDirectory_def with_new_version_def
        w0_def[symmetric] cr body W_def)
  have nvn: "number nv = ?n" by (simp add: nv_def)
  have fresh: "\<And>f. map (\<lambda>x. if same_version nv x then f x else x) (versions w) = versions w"
    unfolding nv_def by (rule map_fresh)
  have self: "\<And>c b. same_version nv (RepositoryVersion (repo_pk repo) ?n c b)"
    unfolding nv_def by (rule same_version_self)
  have vw1: "versions w1 = versions w @ [nv]"
    by (simp add: w1_def w0_def versions_log_event)
  have ew1: "events w1 = events w @ [WorkingDirectoryEntered, VersionCreated ?n]"
    by (simp add: w1_def w0_def events_log_event)
  have vw2: "versions w2 = versions w @
      [RepositoryVersion (repo_pk repo) ?n
         (filter (\<lambda>c. c \<notin> set (filter (\<lambda>c. \<not> removal_fails env c) rems))
            (?base @ map model (filter (\<lambda>p. \<not> addition_fails env p) ?adds)))
         False]"
    unfolding w2_def versions_log_reports versions_update_version versions_log_event vw1
    by (simp add: fresh) (simp add: nv_def same_version_self)
  have ew2: "events w2 = events w @ [WorkingDirectoryEntered, VersionCreated ?n, DownloadStarted feed]
       @ (if debug_enabled env then map DebugLogged ?reports else [])"
    unfolding w2_def events_log_reports events_update_version events_log_event ew1
    by simp
  have vW: "versions W = versions w @
      [RepositoryVersion (repo_pk repo) ?n
         (filter (\<lambda>c. c \<notin> set (filter (\<lambda>c. \<not> removal_fails env c) rems))
            (?base @ map model (filter (\<lambda>p. \<not> addition_fails env p) ?adds)))
         True]"
    unfolding W_def seal_def versions_log_event versions_update_version vw2
    by (simp add: fresh self)
  have eW: "events W = events w @ [WorkingDirectoryEntered, VersionCreated ?n, DownloadStarted feed]
       @ (if debug_enabled env then map DebugLogged ?reports else [])
       @ [VersionSealed ?n, WorkingDirectoryExited]"
    unfolding W_def seal_def events_log_event events_update_version ew2 nvn
    by simp
  have eqI: "\<And>(a::World) b. versions a = versions b \<Longrightarrow> events a = events b \<Longrightarrow> a = b"
    by simp
  have "W = w\<lparr>versions := versions w @
           [RepositoryVersion (repo_pk repo) ?n
              (filter (\<lambda>c. c \<notin> set (filter (\<lambda>c. \<not> removal_fails env c) rems))
                 (?base @ map model (filter (\<lambda>p. \<not> addition_fails env p) ?adds)))
              True],
         events := events w @
           [WorkingDirectoryEntered, VersionCreated ?n, DownloadStarted feed]
           @ (if debug_enabled env then map DebugLogged ?reports else [])
           @ [VersionSealed ?n, WorkingDirectoryExited]\<rparr>"
    by (rule eqI) (simp_all add: vW eW)
  then show ?thesis using run by simp
qed


lemma iterable_build_removals_Some:
  "iterable (build_removals order' n (Some v) delta)
     = Inr (concat (map (\<lambda>b. filter (q_matches (batch_query b)) (content v))
                      (BatchIterator n (order' (removals delta)))))"
  by (cases "BatchIterator n (order' (removals delta))") (simp_all add: build_removals_def Let_def)

lemma BatchIterator_Nil: "BatchIterator n [] = []"
  by (simp add: BatchIterator.simps)

lemma iterable_build_removals_None:
  "order' (removals delta) = [] \<Longrightarrow> iterable (build_removals order' n None delta) = Inr []"
  by (simp add: build_removals_def Let_def BatchIterator_Nil)

lemma set_batched_lookup:
  "0 < n \<Longrightarrow>
   set (concat (map (\<lambda>b. filter (q_matches (batch_query b)) cs) (BatchIterator n ks)))
     = {c \<in> set cs. Key (fc_path c) (fc_digest c) \<in> set ks}"
proof -
  assume n: "0 < n"
  have "set (concat (map (\<lambda>b. filter (q_matches (batch_query b)) cs) (BatchIterator n ks)))
      = {c \<in> set cs. \<exists>b \<in> set (BatchIterator n ks). Key (fc_path c) (fc_digest c) \<in> set b}"
    using BatchIterator_nonempty[of _ n ks] by (auto simp: q_matches_batch_query)
  also have "\<dots> = {c \<in> set cs. Key (fc_path c) (fc_digest c) \<in> set (concat (BatchIterator n ks))}"
    by auto
  finally show ?thesis using n by (simp only: concat_BatchIterator)
qed

lemma removals_iterable_ex:
  assumes "set (order' (removals (find_delta manifest (fetch_content base) True)))
             = removals (find_delta manifest (fetch_content base) True)"
  shows "\<exists>rems. iterable (build_removals order' n base
                 (find_delta manifest (fetch_content base) True)) = Inr rems"
proof (cases base)
  case None
  then have "removals (find_delta manifest (fetch_content base) True) = {}"
    by (simp add: find_delta_def fetch_content_def Let_def)
  then have "order' (removals (find_delta manifest (fetch_content base) True)) = []"
    using assms by simp
  then show ?thesis unfolding None by (simp add: iterable_build_removals_None)
next
  case (Some v)
  then show ?thesis by (simp add: iterable_build_removals_Some)
qed

lemma case_last_snoc:
  "(case ys @ [x] of [] \<Rightarrow> None | v # vs \<Rightarrow> Some (last (v # vs))) = Some x"
proof (cases ys)
  case Nil
  then show ?thesis by simp
next
  case (Cons y ys')
  have "last (y # ys' @ [x]) = x" by (metis append_Cons last_snoc)
  then show ?thesis unfolding Cons by simp
qed

lemma latest_appended:
  "latest repo (w\<lparr>versions := vs @ [RepositoryVersion (repo_pk repo) n c True], events := ev\<rparr>)
     = Some (RepositoryVersion (repo_pk repo) n c True)"
proof -
  have "filter complete (versions_of repo
          (w\<lparr>versions := vs @ [RepositoryVersion (repo_pk repo) n c True], events := ev\<rparr>))
        = filter complete (filter (\<lambda>v. repository v = repo_pk repo) vs)
          @ [RepositoryVersion (repo_pk repo) n c True]"
    by (simp add: versions_of_def)
  then show ?thesis
    unfolding latest_def by (simp only: case_last_snoc)
qed



lemma generated_iterable: "iterable s = Inr xs \<Longrightarrow> generated (Inr s) = xs"
  by (cases s) (simp add: generated_def)

lemma model_generated_additions:
  "urlparse feed = Inr pu \<Longrightarrow>
   map model (generated (build_additions feed manifest delta))
     = map (\<lambda>e. FileContent None (e_path e) (e_digest e))
         (filter (\<lambda>e. Key (e_path e) (e_digest e) \<in> additions delta) (read manifest))"
  by (simp add: build_additions_def generated_def Let_def comp_def)

lemma keys_of_planned_additions:
  assumes "urlparse feed = Inr pu"
  shows "(\<lambda>f. Key (fc_path f) (fc_digest f))
           ` set (map model (generated (build_additions feed manifest (find_delta manifest L True))))
         = additions (find_delta manifest L True)"
proof -
  let ?K = "\<lambda>e. Key (e_path e) (e_digest e)"
  let ?A = "additions (find_delta manifest L True)"
  have A: "?A = ?K ` set (read manifest) - L"
    by (simp add: find_delta_def Let_def)
  have "(\<lambda>f. Key (fc_path f) (fc_digest f))
           ` set (map (\<lambda>e. FileContent None (e_path e) (e_digest e))
                (filter (\<lambda>e. ?K e \<in> ?A) (read manifest)))
        = ?K ` {e \<in> set (read manifest). ?K e \<in> ?A}"
    by (simp add: image_image)
  also have "\<dots> = ?A"
    unfolding A by auto
  finally show ?thesis
    unfolding model_generated_additions[OF assms] .
qed

lemma fetch_content_Some:
  "fetch_content (Some v) = (\<lambda>f. Key (fc_path f) (fc_digest f)) ` set (content v)"
  by (simp add: fetch_content_def)

lemma committed_keys:
  assumes ad: "(\<lambda>f. Key (fc_path f) (fc_digest f)) ` set added = Ad"
      and rm: "set rems = {c \<in> set basec. Key (fc_path c) (fc_digest c) \<in> Rm}"
      and dj: "Ad \<inter> Rm = {}"
  shows "(\<lambda>f. Key (fc_path f) (fc_digest f)) ` set (filter (\<lambda>c. c \<notin> set rems) (basec @ added))
         = ((\<lambda>f. Key (fc_path f) (fc_digest f)) ` set basec - Rm) \<union> Ad"
proof -
  have "\<And>m. m \<in> set added \<Longrightarrow> m \<notin> set rems"
    using ad rm dj by auto
  then have "set (filter (\<lambda>c. c \<notin> set rems) (basec @ added))
      = {c \<in> set basec. Key (fc_path c) (fc_digest c) \<notin> Rm} \<union> set added"
    using rm by auto
  then show ?thesis using ad by auto
qed

lemma example_importers:
  "importers (example_env feed downloaded fails) ''i'' = Some (FileImporter ''importer'' feed)"
  by (simp add: example_env_def)

lemma example_repositories:
  "repositories (example_env feed downloaded fails) ''r'' = Some (Repository ''r'' ''repository'')"
  by (simp add: example_env_def)

lemma example_urlparse:
  "urlparse ''http://host/repo/PULP_MANIFEST''
     = Inr (ParseResult ''http'' ''host'' ''/repo/PULP_MANIFEST'' [] [] [])"
  by code_simp

text \<open>
  C2 as stated fails when a planned item fails in the apply engine, because the run seals
  the version all the same. Base version (a, 1), (b, 2), remote manifest (b, 2), (c, 3):
  the delta asks for the addition (c, 3) and the removal (a, 1), so the committed keys
  should be (b, 2), (c, 3); when the addition of (c, 3) fails, the sealed version holds
  (b, 2) only.
\<close>

theorem synchronize_commits_partial_content:
  "fst (synchronize
     (example_env (Some ''http://host/repo/PULP_MANIFEST'')
        (Inr [ManifestEntry ''b'' ''2'' 5, ManifestEntry ''c'' ''3'' 6]) True)
     ''i'' ''r'' example_world) = Inr ()
   \<and> fetch_content (latest (Repository ''r'' ''repository'')
        (snd (synchronize
          (example_env (Some ''http://host/repo/PULP_MANIFEST'')
             (Inr [ManifestEntry ''b'' ''2'' 5, ManifestEntry ''c'' ''3'' 6]) True)
          ''i'' ''r'' example_world)))
       = {Key ''b'' ''2''}
   \<and> (fetch_content (latest (Repository ''r'' ''repository'') example_world)
        - removals (find_delta [ManifestEntry ''b'' ''2'' 5, ManifestEntry ''c'' ''3'' 6]
            (fetch_content (latest (Repository ''r'' ''repository'') example_world)) True))
       \<union> additions (find_delta [ManifestEntry ''b'' ''2'' 5, ManifestEntry ''c'' ''3'' 6]
            (fetch_content (latest (Repository ''r'' ''repository'') example_world)) True)
       = {Key ''b'' ''2'', Key ''c'' ''3''}
   \<and> remote_keys [ManifestEntry ''b'' ''2'' 5, ManifestEntry ''c'' ''3'' 6]
       = {Key ''b'' ''2'', Key ''c'' ''3''}"
  by code_simp

text \<open>
  C2, amended. When no planned addition and no planned removal fails in the apply engine,
  the run ends normally and the content keys of the version it seals, the new latest
  version, are the keys of the base version without the removals, together with the
  additions; the entry point always mirrors, so these are exactly the keys of the remote
  manifest. The set of removals is iterated completely, in any order, and the batch size
  is positive. The instance is the scenario of the specification: base (a, 1), (b, 2),
  remote (b, 2), (c, 3), committed (b, 2), (c, 3).
\<close>

theorem synchronize_commits_remote_content:
  assumes "importers env importer_pk = Some importer"
      and "repositories env repository_pk = Some repo"
      and "feed_url importer = Some feed" and "feed \<noteq> []"
      and "download env feed = Inr manifest"
      and "urlparse feed = Inr pu"
      and ord: "set (iteration_order env
                 (removals (find_delta manifest (fetch_content (latest repo w)) True)))
               = removals (find_delta manifest (fetch_content (latest repo w)) True)"
      and batch: "0 < batch_size env"
      and addok: "\<forall>p \<in> set (generated (build_additions feed manifest
                     (find_delta manifest (fetch_content (latest repo w)) True))).
                   \<not> addition_fails env p"
      and remok: "\<forall>c \<in> set (generated (Inr (build_removals (iteration_order env)
                     (batch_size env) (latest repo w)
                     (find_delta manifest (fetch_content (latest repo w)) True)))).
                   \<not> removal_fails env c"
  shows "fst (synchronize env importer_pk repository_pk w) = Inr ()
       \<and> fetch_content (latest repo (snd (synchronize env importer_pk repository_pk w)))
           = (fetch_content (latest repo w)
                - removals (find_delta manifest (fetch_content (latest repo w)) True))
             \<union> additions (find_delta manifest (fetch_content (latest repo w)) True)
       \<and> fetch_content (latest repo (snd (synchronize env importer_pk repository_pk w)))
           = remote_keys manifest"
proof -
  let ?L = "fetch_content (latest repo w)"
  let ?delta = "find_delta manifest ?L True"
  let ?adds = "generated (build_additions feed manifest ?delta)"
  let ?basec = "case latest repo w of None \<Rightarrow> [] | Some v \<Rightarrow> content v"
  let ?key = "\<lambda>f. Key (fc_path f) (fc_digest f)"
  obtain rems where rems: "iterable (build_removals (iteration_order env) (batch_size env)
       (latest repo w) ?delta) = Inr rems"
    using removals_iterable_ex[of "iteration_order env" manifest "latest repo w" "batch_size env"] ord
    by blast
  have gr: "generated (Inr (build_removals (iteration_order env) (batch_size env)
       (latest repo w) ?delta)) = rems"
    using rems by (rule generated_iterable)
  have fa: "filter (\<lambda>p. \<not> addition_fails env p) ?adds = ?adds"
    using addok by (simp add: filter_id_conv)
  have fr: "filter (\<lambda>c. \<not> removal_fails env c) rems = rems"
    using remok unfolding gr by (simp add: filter_id_conv)
  let ?C = "filter (\<lambda>c. c \<notin> set rems) (?basec @ map model ?adds)"
  have run: "synchronize env importer_pk repository_pk w =
     (Inr (),
      w\<lparr>versions := versions w @ [RepositoryVersion (repo_pk repo) (next_number repo w) ?C True],
         events := events w @
           [WorkingDirectoryEntered, VersionCreated (next_number repo w), DownloadStarted feed]
           @ (if debug_enabled env
              then map DebugLogged
                     (map (\<lambda>p. ChangeReport ADD (model p) (addition_fails env p)) ?adds
                      @ map (\<lambda>c. ChangeReport REMOVE c (removal_fails env c)) rems)
              else [])
           @ [VersionSealed (next_number repo w), WorkingDirectoryExited]\<rparr>)"
    using synchronize_success[OF assms(1-6) rems] unfolding fa fr .
  have lat: "latest repo (snd (synchronize env importer_pk repository_pk w))
       = Some (RepositoryVersion (repo_pk repo) (next_number repo w) ?C True)"
    unfolding run snd_conv by (rule latest_appended)
  have L: "?L = ?key ` set ?basec"
    by (cases "latest repo w") (simp_all add: fetch_content_def)
  have rm: "set rems = {c \<in> set ?basec. ?key c \<in> removals ?delta}"
  proof (cases "latest repo w")
    case None
    then have "removals ?delta = {}"
      by (simp add: find_delta_def fetch_content_def Let_def)
    then have "iteration_order env (removals ?delta) = []" using ord by simp
    then have "iterable (build_removals (iteration_order env) (batch_size env) None ?delta) = Inr []"
      by (rule iterable_build_removals_None)
    then show ?thesis using rems None by simp
  next
    case (Some v)
    have "rems = concat (map (\<lambda>b. filter (q_matches (batch_query b)) (content v))
         (BatchIterator (batch_size env) (iteration_order env (removals ?delta))))"
      using rems unfolding Some iterable_build_removals_Some by simp
    then have "set rems = {c \<in> set (content v). ?key c \<in> set (iteration_order env (removals ?delta))}"
      using set_batched_lookup[OF batch] by simp
    then show ?thesis unfolding ord using Some by simp
  qed
  have dj: "additions ?delta \<inter> removals ?delta = {}"
    by (auto simp: find_delta_def Let_def)
  have keys0: "?key ` set ?C = (?key ` set ?basec - removals ?delta) \<union> additions ?delta"
    by (rule committed_keys[OF keys_of_planned_additions[OF assms(6)] rm dj])
  have keys: "?key ` set ?C = (?L - removals ?delta) \<union> additions ?delta"
    using keys0 unfolding L .
  have fc: "fetch_content (latest repo (snd (synchronize env importer_pk repository_pk w)))
        = ?key ` set ?C"
    unfolding lat fetch_content_Some by (simp only: RepositoryVersion.sel)
  have rk: "(?L - removals ?delta) \<union> additions ?delta = remote_keys manifest"
    by (auto simp: find_delta_def remote_keys_def Let_def)
  have 1: "fst (synchronize env importer_pk repository_pk w) = Inr ()"
    by (simp only: run fst_conv)
  have 2: "fetch_content (latest repo (snd (synchronize env importer_pk repository_pk w)))
        = (?L - removals ?delta) \<union> additions ?delta"
    by (simp only: fc keys)
  have 3: "fetch_content (latest repo (snd (synchronize env importer_pk repository_pk w)))
        = remote_keys manifest"
    by (simp only: 2 rk)
  show ?thesis
    by (intro conjI 1 2 3)
qed


theorem synchronize_commits_remote_content_witness:
  "fst (synchronize
          (example_env (Some ''http://host/repo/PULP_MANIFEST'')
             (Inr [ManifestEntry ''b'' ''2'' 5, ManifestEntry ''c'' ''3'' 6]) False)
          ''i'' ''r'' example_world) = Inr ()
   \<and> fetch_content (latest (Repository ''r'' ''repository'')
         (snd (synchronize
            (example_env (Some ''http://host/repo/PULP_MANIFEST'')
               (Inr [ManifestEntry ''b'' ''2'' 5, ManifestEntry ''c'' ''3'' 6]) False)
            ''i'' ''r'' example_world)))
       = {Key ''b'' ''2'', Key ''c'' ''3''}"
proof -
  let ?m = "[ManifestEntry ''b'' ''2'' 5, ManifestEntry ''c'' ''3'' 6]"
  let ?env = "example_env (Some ''http://host/repo/PULP_MANIFEST'') (Inr ?m) False"
  let ?repo = "Repository ''r'' ''repository''"
  have f: "feed_url (FileImporter ''importer'' (Some ''http://host/repo/PULP_MANIFEST''))
             = Some ''http://host/repo/PULP_MANIFEST''" by simp
  have ne: "''http://host/repo/PULP_MANIFEST'' \<noteq> []" by simp
  have d: "download ?env ''http://host/repo/PULP_MANIFEST'' = Inr ?m"
    by (simp add: example_env_def)
  have ord: "set (iteration_order ?env
                 (removals (find_delta ?m (fetch_content (latest ?repo example_world)) True)))
               = removals (find_delta ?m (fetch_content (latest ?repo example_world)) True)"
    by code_simp
  have b: "0 < batch_size ?env" by (simp add: example_env_def)
  have a: "\<forall>p \<in> set (generated (build_additions ''http://host/repo/PULP_MANIFEST'' ?m
                     (find_delta ?m (fetch_content (latest ?repo example_world)) True))).
                   \<not> addition_fails ?env p"
    by (simp add: example_env_def)
  have r: "\<forall>c \<in> set (generated (Inr (build_removals (iteration_order ?env)
                     (batch_size ?env) (latest ?repo example_world)
                     (find_delta ?m (fetch_content (latest ?repo example_world)) True)))).
                   \<not> removal_fails ?env c"
    by (simp add: example_env_def)
  have k: "remote_keys ?m = {Key ''b'' ''2'', Key ''c'' ''3''}"
    by (simp add: remote_keys_def read_def)
  note t = synchronize_commits_remote_content
      [OF example_importers example_repositories f ne d example_urlparse ord b a r]
  have 1: "fst (synchronize ?env ''i'' ''r'' example_world) = Inr ()"
    by (rule conjunct1[OF t])
  have 2: "fetch_content (latest ?repo (snd (synchronize ?env ''i'' ''r'' example_world)))
             = remote_keys ?m"
    by (rule conjunct2[OF conjunct2[OF t]])
  show ?thesis
    using 1 2 unfolding k by (rule conjI)
qed

text \<open>
  C3 as stated fails: the orchestrator never looks into a report. On a first
  synchronization whose only addition (c, 3) fails in the apply engine, the report says
  so, the run ends normally and the provisional version 1 is sealed, empty.
\<close>

theorem synchronize_seals_after_failed_item:
  "synchronize
     (example_env (Some ''http://host/repo/PULP_MANIFEST'') (Inr [ManifestEntry ''c'' ''3'' 6]) True)
     ''i'' ''r'' empty_world
   = (Inr (),
      \<lparr>versions = [RepositoryVersion ''r'' 1 [] True],
         events = [WorkingDirectoryEntered, VersionCreated 1,
                   DownloadStarted ''http://host/repo/PULP_MANIFEST'',
                   DebugLogged (ChangeReport ADD (FileContent None ''c'' ''3'') True),
                   VersionSealed 1, WorkingDirectoryExited]\<rparr>)"
  by code_simp

text \<open>
  C3, amended. The orchestrator does not inspect the reports of the apply phase: it only
  logs them. Whenever the manifest is downloaded and the feed URL parses, the run ends
  normally and seals the provisional version, which becomes the latest version, whatever
  the reports indicate; the planned items that failed are simply absent from what was
  applied, and the version is not deleted.
\<close>

theorem synchronize_seals_whatever_reports:
  assumes "importers env importer_pk = Some importer"
      and "repositories env repository_pk = Some repo"
      and "feed_url importer = Some feed" and "feed \<noteq> []"
      and "download env feed = Inr manifest"
      and "urlparse feed = Inr pu"
      and ord: "set (iteration_order env
                 (removals (find_delta manifest (fetch_content (latest repo w)) True)))
               = removals (find_delta manifest (fetch_content (latest repo w)) True)"
  shows "fst (synchronize env importer_pk repository_pk w) = Inr ()
       \<and> latest repo (snd (synchronize env importer_pk repository_pk w))
           = Some (RepositoryVersion (repo_pk repo) (next_number repo w)
               (filter (\<lambda>c. c \<notin> set (filter (\<lambda>c. \<not> removal_fails env c)
                    (generated (Inr (build_removals (iteration_order env) (batch_size env)
                       (latest repo w)
                       (find_delta manifest (fetch_content (latest repo w)) True))))))
                  ((case latest repo w of None \<Rightarrow> [] | Some v \<Rightarrow> content v)
                   @ map model (filter (\<lambda>p. \<not> addition_fails env p)
                       (generated (build_additions feed manifest
                          (find_delta manifest (fetch_content (latest repo w)) True))))))
               True)
       \<and> VersionSealed (next_number repo w)
           \<in> set (drop (length (events w))
                   (events (snd (synchronize env importer_pk repository_pk w))))
       \<and> VersionDeleted (next_number repo w)
           \<notin> set (drop (length (events w))
                   (events (snd (synchronize env importer_pk repository_pk w))))"
proof -
  let ?delta = "find_delta manifest (fetch_content (latest repo w)) True"
  obtain rems where rems: "iterable (build_removals (iteration_order env) (batch_size env)
       (latest repo w) ?delta) = Inr rems"
    using removals_iterable_ex[of "iteration_order env" manifest "latest repo w" "batch_size env"] ord
    by blast
  have gr: "generated (Inr (build_removals (iteration_order env) (batch_size env)
       (latest repo w) ?delta)) = rems"
    using rems by (rule generated_iterable)
  note run = synchronize_success[OF assms(1-6) rems]
  have 1: "fst (synchronize env importer_pk repository_pk w) = Inr ()"
    by (simp only: run fst_conv)
  have 2: "latest repo (snd (synchronize env importer_pk repository_pk w))
           = Some (RepositoryVersion (repo_pk repo) (next_number repo w)
               (filter (\<lambda>c. c \<notin> set (filter (\<lambda>c. \<not> removal_fails env c) rems))
                  ((case latest repo w of None \<Rightarrow> [] | Some v \<Rightarrow> content v)
                   @ map model (filter (\<lambda>p. \<not> addition_fails env p)
                       (generated (build_additions feed manifest ?delta)))))
               True)"
    unfolding run snd_conv by (rule latest_appended)
  have 3: "VersionSealed (next_number repo w)
           \<in> set (drop (length (events w))
                   (events (snd (synchronize env importer_pk repository_pk w))))"
    unfolding run by simp
  have 4: "VersionDeleted (next_number repo w)
           \<notin> set (drop (length (events w))
                   (events (snd (synchronize env importer_pk repository_pk w))))"
    unfolding run by auto
  show ?thesis
    unfolding gr by (intro conjI 1 2 3 4)
qed

theorem synchronize_seals_whatever_reports_witness:
  "fst (synchronize
          (example_env (Some ''http://host/repo/PULP_MANIFEST'')
             (Inr [ManifestEntry ''a'' ''1'' 4, ManifestEntry ''c'' ''3'' 6]) True)
          ''i'' ''r'' example_world) = Inr ()
   \<and> latest (Repository ''r'' ''repository'')
        (snd (synchronize
          (example_env (Some ''http://host/repo/PULP_MANIFEST'')
             (Inr [ManifestEntry ''a'' ''1'' 4, ManifestEntry ''c'' ''3'' 6]) True)
          ''i'' ''r'' example_world))
       = Some (RepositoryVersion ''r'' 2 [FileContent (Some 10) ''a'' ''1''] True)"
proof -
  let ?m = "[ManifestEntry ''a'' ''1'' 4, ManifestEntry ''c'' ''3'' 6]"
  let ?env = "example_env (Some ''http://host/repo/PULP_MANIFEST'') (Inr ?m) True"
  let ?repo = "Repository ''r'' ''repository''"
  have f: "feed_url (FileImporter ''importer'' (Some ''http://host/repo/PULP_MANIFEST''))
             = Some ''http://host/repo/PULP_MANIFEST''" by simp
  have ne: "''http://host/repo/PULP_MANIFEST'' \<noteq> []" by simp
  have d: "download ?env ''http://host/repo/PULP_MANIFEST'' = Inr ?m"
    by (simp add: example_env_def)
  have ord: "set (iteration_order ?env
                 (removals (find_delta ?m (fetch_content (latest ?repo example_world)) True)))
               = removals (find_delta ?m (fetch_content (latest ?repo example_world)) True)"
    by code_simp
  note t = synchronize_seals_whatever_reports
      [OF example_importers example_repositories f ne d example_urlparse ord]
  have c: "RepositoryVersion (repo_pk ?repo) (next_number ?repo example_world)
               (filter (\<lambda>c. c \<notin> set (filter (\<lambda>c. \<not> removal_fails ?env c)
                    (generated (Inr (build_removals (iteration_order ?env) (batch_size ?env)
                       (latest ?repo example_world)
                       (find_delta ?m (fetch_content (latest ?repo example_world)) True))))))
                  ((case latest ?repo example_world of None \<Rightarrow> [] | Some v \<Rightarrow> content v)
                   @ map model (filter (\<lambda>p. \<not> addition_fails ?env p)
                       (generated (build_additions ''http://host/repo/PULP_MANIFEST'' ?m
                          (find_delta ?m (fetch_content (latest ?repo example_world)) True))))))
               True
           = RepositoryVersion ''r'' 2 [FileContent (Some 10) ''a'' ''1''] True"
    by code_simp
  show ?thesis
    using conjunct1[OF t] conjunct1[OF conjunct2[OF t]] unfolding c by (rule conjI)
qed

text \<open>
  C5 as stated fails: the provisional version is created before the manifest is
  downloaded. When the download fails with a transport error, version 1 has been created
  and is then deleted.
\<close>

theorem synchronize_creates_version_before_download:
  "synchronize (example_env (Some ''http://host/repo/PULP_MANIFEST'') (Inl TransportError) False)
     ''i'' ''r'' empty_world
   = (Inl TransportError,
      \<lparr>versions = [],
         events = [WorkingDirectoryEntered, VersionCreated 1,
                   DownloadStarted ''http://host/repo/PULP_MANIFEST'',
                   VersionDeleted 1, WorkingDirectoryExited]\<rparr>)"
  by code_simp

text \<open>
  C5, amended. When the download of the manifest fails, the run aborts with the error of
  the downloader. The provisional version, created before the download, is deleted and
  never sealed: the table of versions and the latest version of the repository are what
  they were before the run.
\<close>

theorem synchronize_download_error_discards_version:
  assumes "importers env importer_pk = Some importer"
      and "repositories env repository_pk = Some repo"
      and "feed_url importer = Some feed" and "feed \<noteq> []"
      and "download env feed = Inl e"
  shows "fst (synchronize env importer_pk repository_pk w) = Inl e
       \<and> versions (snd (synchronize env importer_pk repository_pk w)) = versions w
       \<and> latest repo (snd (synchronize env importer_pk repository_pk w)) = latest repo w
       \<and> events (snd (synchronize env importer_pk repository_pk w))
           = events w @ [WorkingDirectoryEntered, VersionCreated (next_number repo w),
                         DownloadStarted feed, VersionDeleted (next_number repo w),
                         WorkingDirectoryExited]"
  unfolding synchronize_download_fails[OF assms]
  by (simp add: latest_events)

theorem synchronize_download_error_discards_version_witness:
  "fst (synchronize
          (example_env (Some ''http://host/repo/PULP_MANIFEST'') (Inl TransportError) False)
          ''i'' ''r'' example_world) = Inl TransportError
   \<and> versions (snd (synchronize
          (example_env (Some ''http://host/repo/PULP_MANIFEST'') (Inl TransportError) False)
          ''i'' ''r'' example_world)) = versions example_world
   \<and> events (snd (synchronize
          (example_env (Some ''http://host/repo/PULP_MANIFEST'') (Inl TransportError) False)
          ''i'' ''r'' example_world))
       = [WorkingDirectoryEntered, VersionCreated 2,
          DownloadStarted ''http://host/repo/PULP_MANIFEST'', VersionDeleted 2,
          WorkingDirectoryExited]"
proof -
  let ?env = "example_env (Some ''http://host/repo/PULP_MANIFEST'') (Inl TransportError) False"
  have f: "feed_url (FileImporter ''importer'' (Some ''http://host/repo/PULP_MANIFEST''))
             = Some ''http://host/repo/PULP_MANIFEST''" by simp
  have ne: "''http://host/repo/PULP_MANIFEST'' \<noteq> []" by simp
  have d: "download ?env ''http://host/repo/PULP_MANIFEST'' = Inl TransportError"
    by (simp add: example_env_def)
  have n: "next_number (Repository ''r'' ''repository'') example_world = 2"
    by code_simp
  have ev: "events example_world = []" by (simp add: example_world_def)
  show ?thesis
    using synchronize_download_error_discards_version
      [OF example_importers example_repositories f ne d, of example_world]
    unfolding n ev by simp
qed

section \<open>Properties of the entry point\<close>

lemma bind_arguments_unexpected_keyword:
  assumes "k \<in> fst ` set kwargs" and "k \<notin> param_name ` set params"
  shows "bind_arguments params args kwargs = Inl TypeError"
proof -
  have "list_ex (\<lambda>k. k \<notin> set (map param_name params)) (map fst kwargs)"
    using assms by (auto simp: list_ex_iff)
  then show ?thesis
    by (simp add: bind_arguments_def Let_def)
qed

text \<open>
  C6 as stated fails: the entry point has no configuration option. A call that passes
  \<^verbatim>\<open>mirror=False\<close>, or \<^verbatim>\<open>batch_size=100\<close>, besides the two references raises
  TypeError and does nothing.
\<close>

theorem synchronize_rejects_options_counterexample:
  "synchronize_task
     (example_env (Some ''http://host/repo/PULP_MANIFEST'') (Inr []) False)
     [PyStr ''i'', PyStr ''r''] [(''mirror'', PyBool False)] example_world
     = (Inl TypeError, example_world)
   \<and> synchronize_task
     (example_env (Some ''http://host/repo/PULP_MANIFEST'') (Inr []) False)
     [PyStr ''i'', PyStr ''r''] [(''batch_size'', PyInt 100)] example_world
     = (Inl TypeError, example_world)"
  by code_simp

text \<open>
  C6, amended. The synchronization entry point takes exactly two arguments, the primary
  key of the importer (the source) and the primary key of the repository (the target),
  and no configuration option: a call with any other keyword argument, or with more than
  two positional arguments, raises TypeError and leaves the world as it is, and the call
  with the two keys is the run of \<open>synchronize\<close>. Mirroring is the parameter
  \<^verbatim>\<open>mirror\<close> of \<^verbatim>\<open>find_delta\<close>, whose default True is what the call
  \<^verbatim>\<open>find_delta(manifest, content)\<close> of the orchestrator binds.
\<close>

theorem synchronize_takes_two_arguments:
  assumes "k \<in> fst ` set kwargs" and "k \<noteq> ''importer_pk''" and "k \<noteq> ''repository_pk''"
  shows "synchronize_task env args kwargs w = (Inl TypeError, w)
       \<and> synchronize_task env [PyStr importer_pk, PyStr repository_pk] [] w
           = synchronize env importer_pk repository_pk w
       \<and> synchronize_task env (a1 # a2 # a3 # rest) kwargs' w = (Inl TypeError, w)
       \<and> bind_arguments find_delta_parameters [manifest, content'] []
           = Inr [(''manifest'', manifest), (''content'', content'), (''mirror'', PyBool True)]"
proof -
  have "k \<notin> param_name ` set synchronize_parameters"
    using assms(2,3) by (simp add: synchronize_parameters_def)
  then have 1: "synchronize_task env args kwargs w = (Inl TypeError, w)"
    using bind_arguments_unexpected_keyword[OF assms(1)] by (simp add: synchronize_task_def)
  have 2: "synchronize_task env [PyStr importer_pk, PyStr repository_pk] [] w
           = synchronize env importer_pk repository_pk w"
    by (simp add: synchronize_task_def bind_arguments_def synchronize_parameters_def Let_def)
  have 3: "synchronize_task env (a1 # a2 # a3 # rest) kwargs' w = (Inl TypeError, w)"
    by (simp add: synchronize_task_def bind_arguments_def synchronize_parameters_def Let_def)
  have 4: "bind_arguments find_delta_parameters [manifest, content'] []
           = Inr [(''manifest'', manifest), (''content'', content'), (''mirror'', PyBool True)]"
    by (simp add: bind_arguments_def find_delta_parameters_def Let_def)
  show ?thesis by (intro conjI 1 2 3 4)
qed

theorem synchronize_takes_two_arguments_witness:
  "synchronize_task
     (example_env (Some ''http://host/repo/PULP_MANIFEST'') (Inr []) False)
     [] [(''importer_pk'', PyStr ''i''), (''repository_pk'', PyStr ''r''),
         (''mirror'', PyBool True)] empty_world
   = (Inl TypeError, empty_world)"
proof -
  have k: "''mirror'' \<in> fst ` set [(''importer_pk'', PyStr ''i''),
             (''repository_pk'', PyStr ''r''), (''mirror'', PyBool True)]"
    by simp
  have n1: "''mirror'' \<noteq> ''importer_pk''" and n2: "''mirror'' \<noteq> ''repository_pk''"
    by simp_all
  show ?thesis
    by (rule conjunct1[OF synchronize_takes_two_arguments[OF k n1 n2]])
qed

end
